theory Spec2Isabelle
  imports Complex_Main "HOL-Library.Multiset"
begin

section \<open>Colour vectors\<close>

text \<open>
  The agents of \<^verbatim>\<open>src/flock.js\<close> keep their colour, colour velocity and colour
  acceleration in three-component vectors of the drawing library. JavaScript numbers are
  modelled as the reals: the development is about the arithmetic the program asks for,
  not about the rounding of IEEE doubles.
\<close>

datatype vector = createVector (vx: real) (vy: real) (vz: real)

text \<open>
  Modelled from the spec: the vector operations are those of the drawing library, which
  is not part of the sources. Section 3 of the specification lists them: add, subtract,
  scale, magnitude, normalize (a no-op on the zero vector, the division by zero being
  guarded) and limit-to-length.
\<close>

definition add_v :: "vector \<Rightarrow> vector \<Rightarrow> vector" where
  "add_v a b = createVector (vx a + vx b) (vy a + vy b) (vz a + vz b)"

definition sub_v :: "vector \<Rightarrow> vector \<Rightarrow> vector" where
  "sub_v a b = createVector (vx a - vx b) (vy a - vy b) (vz a - vz b)"

definition mult_v :: "vector \<Rightarrow> real \<Rightarrow> vector" where
  "mult_v a n = createVector (vx a * n) (vy a * n) (vz a * n)"

definition div_v :: "vector \<Rightarrow> real \<Rightarrow> vector" where
  "div_v a n = (if n = 0 then a else createVector (vx a / n) (vy a / n) (vz a / n))"

definition magSq :: "vector \<Rightarrow> real" where
  "magSq a = vx a * vx a + vy a * vy a + vz a * vz a"

definition mag :: "vector \<Rightarrow> real" where
  "mag a = sqrt (magSq a)"

definition normalize_v :: "vector \<Rightarrow> vector" where
  "normalize_v a = (if mag a = 0 then a else mult_v a (1 / mag a))"

definition limit_v :: "vector \<Rightarrow> real \<Rightarrow> vector" where
  "limit_v a m = (if magSq a > m * m then mult_v (div_v a (sqrt (magSq a))) m else a)"

section \<open>Blocks\<close>

record block =
  pos :: vector
  rgb :: vector
  rgbVel :: vector
  rgbAcc :: vector
  size_blk :: real
  radius :: real
  maxspeed :: real
  maxforce :: real

text \<open>The three gain sliders read by \<^verbatim>\<open>flock\<close>; their values are parameters.\<close>

record sliders =
  sepSlider :: real
  aliSlider :: real
  cohSlider :: real

text \<open>
  The constructor. The three calls of \<^verbatim>\<open>random(256)\<close> are the parameters
  \<open>r1\<close>, \<open>r2\<close>, \<open>r3\<close>; \<^verbatim>\<open>createVector(x, y)\<close> leaves the third component at 0.
\<close>

definition Block :: "real \<Rightarrow> real \<Rightarrow> real \<Rightarrow> real \<Rightarrow> real \<Rightarrow> real \<Rightarrow> block" where
  "Block x y s r1 r2 r3 =
     \<lparr> pos = createVector x y 0,
       rgb = createVector (of_int \<lfloor>r1\<rfloor>) (of_int \<lfloor>r2\<rfloor>) (of_int \<lfloor>r3\<rfloor>),
       rgbVel = createVector 0 0 0,
       rgbAcc = createVector 0 0 0,
       size_blk = s,
       radius = 15,
       maxspeed = 1.5,
       maxforce = 0.01 \<rparr>"

definition randomizeColor :: "real \<Rightarrow> real \<Rightarrow> real \<Rightarrow> block \<Rightarrow> block" where
  "randomizeColor r1 r2 r3 this =
     this\<lparr> rgb := createVector (of_int \<lfloor>r1\<rfloor>) (of_int \<lfloor>r2\<rfloor>) (of_int \<lfloor>r3\<rfloor>) \<rparr>"

definition setToColor :: "real \<Rightarrow> real \<Rightarrow> real \<Rightarrow> block \<Rightarrow> block" where
  "setToColor r g b this = this\<lparr> rgb := createVector r g b \<rparr>"

definition applyForce :: "vector \<Rightarrow> block \<Rightarrow> block" where
  "applyForce force this = this\<lparr> rgbAcc := add_v (rgbAcc this) force \<rparr>"

definition seek :: "block \<Rightarrow> vector \<Rightarrow> vector" where
  "seek this target =
     (let desired = sub_v target (rgb this);
          desired = normalize_v desired;
          desired = mult_v desired (maxspeed this);
          steer = sub_v desired (rgbVel this)
      in limit_v steer (maxforce this))"

text \<open>
  The three neighbour loops run over every slot of the array and skip the slots that
  are \<^verbatim>\<open>null\<close>; a slot is a \<^typ>\<open>block option\<close>. Each loop carries the running
  sum and the count.
\<close>

fun separate_loop :: "block \<Rightarrow> block option list \<Rightarrow> vector \<times> nat \<Rightarrow> vector \<times> nat" where
  "separate_loop this [] (sum_v, cnt) = (sum_v, cnt)"
| "separate_loop this (None # blocks) (sum_v, cnt) = separate_loop this blocks (sum_v, cnt)"
| "separate_loop this (Some b # blocks) (sum_v, cnt) =
     separate_loop this blocks (add_v sum_v (normalize_v (sub_v (rgb this) (rgb b))), cnt + 1)"

definition separate :: "block \<Rightarrow> block option list \<Rightarrow> vector" where
  "separate this blocks =
     (case separate_loop this blocks (createVector 0 0 0, 0) of (sum_v, cnt) \<Rightarrow>
        if cnt > 0
        then (let sum_v = div_v sum_v (real cnt);
                  sum_v = normalize_v sum_v;
                  sum_v = mult_v sum_v (maxspeed this);
                  steer = sub_v sum_v (rgbVel this)
              in limit_v steer (maxforce this))
        else createVector 0 0 0)"

fun align_loop :: "block option list \<Rightarrow> vector \<times> nat \<Rightarrow> vector \<times> nat" where
  "align_loop [] (sum_v, cnt) = (sum_v, cnt)"
| "align_loop (None # blocks) (sum_v, cnt) = align_loop blocks (sum_v, cnt)"
| "align_loop (Some b # blocks) (sum_v, cnt) = align_loop blocks (add_v sum_v (rgbVel b), cnt + 1)"

definition align :: "block \<Rightarrow> block option list \<Rightarrow> vector" where
  "align this blocks =
     (case align_loop blocks (createVector 0 0 0, 0) of (sum_v, cnt) \<Rightarrow>
        if cnt > 0
        then (let sum_v = div_v sum_v (real cnt);
                  sum_v = normalize_v sum_v;
                  sum_v = mult_v sum_v (maxspeed this);
                  steer = sub_v sum_v (rgbVel this)
              in limit_v steer (maxforce this))
        else createVector 0 0 0)"

fun cohesion_loop :: "block option list \<Rightarrow> vector \<times> nat \<Rightarrow> vector \<times> nat" where
  "cohesion_loop [] (sum_v, cnt) = (sum_v, cnt)"
| "cohesion_loop (None # blocks) (sum_v, cnt) = cohesion_loop blocks (sum_v, cnt)"
| "cohesion_loop (Some b # blocks) (sum_v, cnt) = cohesion_loop blocks (add_v sum_v (rgb b), cnt + 1)"

definition cohesion :: "block \<Rightarrow> block option list \<Rightarrow> vector" where
  "cohesion this blocks =
     (case cohesion_loop blocks (createVector 0 0 0, 0) of (sum_v, cnt) \<Rightarrow>
        if cnt > 0
        then seek this (div_v sum_v (real cnt))
        else createVector 0 0 0)"

definition flock :: "sliders \<Rightarrow> block option list \<Rightarrow> block \<Rightarrow> block" where
  "flock g blocks this =
     (let sep = separate this blocks;
          ali = align this blocks;
          coh = cohesion this blocks;
          sep = mult_v sep (sepSlider g);
          ali = mult_v ali (aliSlider g);
          coh = mult_v coh (cohSlider g)
      in applyForce coh (applyForce ali (applyForce sep this)))"

definition edges :: "block \<Rightarrow> block" where
  "edges this =
     (let this = (if vx (rgb this) > 255
                  then this\<lparr> rgb := createVector 255 (vy (rgb this)) (vz (rgb this)),
                             rgbVel := createVector (vx (rgbVel this) * (- 1)) (vy (rgbVel this)) (vz (rgbVel this)) \<rparr>
                  else if vx (rgb this) < 0
                  then this\<lparr> rgb := createVector 0 (vy (rgb this)) (vz (rgb this)),
                             rgbVel := createVector (vx (rgbVel this) * (- 1)) (vy (rgbVel this)) (vz (rgbVel this)) \<rparr>
                  else this);
          this = (if vy (rgb this) > 255
                  then this\<lparr> rgb := createVector (vx (rgb this)) 255 (vz (rgb this)),
                             rgbVel := createVector (vx (rgbVel this)) (vy (rgbVel this) * (- 1)) (vz (rgbVel this)) \<rparr>
                  else if vy (rgb this) < 0
                  then this\<lparr> rgb := createVector (vx (rgb this)) 0 (vz (rgb this)),
                             rgbVel := createVector (vx (rgbVel this)) (vy (rgbVel this) * (- 1)) (vz (rgbVel this)) \<rparr>
                  else this)
      in (if vz (rgb this) > 255
          then this\<lparr> rgb := createVector (vx (rgb this)) (vy (rgb this)) 255,
                     rgbVel := createVector (vx (rgbVel this)) (vy (rgbVel this)) (vz (rgbVel this) * (- 1)) \<rparr>
          else if vz (rgb this) < 0
          then this\<lparr> rgb := createVector (vx (rgb this)) (vy (rgb this)) 0,
                     rgbVel := createVector (vx (rgbVel this)) (vy (rgbVel this)) (vz (rgbVel this) * (- 1)) \<rparr>
          else this))"

definition update :: "block \<Rightarrow> block" where
  "update this =
     (let this = this\<lparr> rgbVel := add_v (rgbVel this) (rgbAcc this) \<rparr>;
          this = this\<lparr> rgbVel := limit_v (rgbVel this) (maxspeed this) \<rparr>;
          this = this\<lparr> rgb := add_v (rgb this) (rgbVel this) \<rparr>;
          this = edges this
      in this\<lparr> rgbAcc := mult_v (rgbAcc this) 0 \<rparr>)"

text \<open>A colour channel is displayable when it lies between 0 and 255.\<close>

definition channel_ok :: "real \<Rightarrow> bool" where
  "channel_ok c = (0 \<le> c \<and> c \<le> 255)"

definition color_ok :: "vector \<Rightarrow> bool" where
  "color_ok c = (channel_ok (vx c) \<and> channel_ok (vy c) \<and> channel_ok (vz c))"

text \<open>A block used by the concrete instances below.\<close>

definition example_block :: block where
  "example_block = (Block 0 0 10 10 20 30)\<lparr> rgbVel := createVector 1 0 0 \<rparr>"

text \<open>A second block for the concrete instances.\<close>

definition other_block :: block where
  "other_block = (Block 20 0 10 40 20 30)\<lparr> rgbVel := createVector (- 0.5) 0 0 \<rparr>"

section \<open>The frame driver\<close>

text \<open>
  Modelled from the spec: the driver \<^verbatim>\<open>step()\<close> of the flock is not part of the
  sources. Section 4.2 of the specification describes it: for each agent in the
  collection call \<^verbatim>\<open>flock(allAgents)\<close>, then, after all forces are computed and
  applied, call \<^verbatim>\<open>update()\<close> on every agent. The collection is an array that is
  updated in place; \<open>order\<close> is the order in which the two passes visit its slots.
\<close>

definition flock_at :: "sliders \<Rightarrow> nat \<Rightarrow> block option list \<Rightarrow> block option list" where
  "flock_at g i blocks =
     (if i < length blocks
      then (case blocks ! i of None \<Rightarrow> blocks | Some b \<Rightarrow> blocks[i := Some (flock g blocks b)])
      else blocks)"

definition update_at :: "nat \<Rightarrow> block option list \<Rightarrow> block option list" where
  "update_at i blocks =
     (if i < length blocks
      then (case blocks ! i of None \<Rightarrow> blocks | Some b \<Rightarrow> blocks[i := Some (update b)])
      else blocks)"

definition step_in_order :: "sliders \<Rightarrow> nat list \<Rightarrow> block option list \<Rightarrow> block option list" where
  "step_in_order g order blocks = fold update_at order (fold (flock_at g) order blocks)"

definition step :: "sliders \<Rightarrow> block option list \<Rightarrow> block option list" where
  "step g blocks = step_in_order g [0..<length blocks] blocks"

text \<open>
  Two slots agree in motion when both are empty or both hold blocks of the same colour and
  colour velocity: all that the neighbour loops read of a peer.
\<close>

definition same_motion :: "block option \<Rightarrow> block option \<Rightarrow> bool" where
  "same_motion s t = rel_option (\<lambda>b c. rgb b = rgb c \<and> rgbVel b = rgbVel c) s t"

text \<open>
  The common shape of the three neighbour loops: every slot that holds a block adds that
  block's contribution to the sum and one to the count.
\<close>

definition gather :: "(block \<Rightarrow> vector) \<Rightarrow> block option list \<Rightarrow> vector \<times> nat \<Rightarrow> vector \<times> nat" where
  "gather contrib =
     fold (\<lambda>slot acc. case slot of None \<Rightarrow> acc | Some b \<Rightarrow> (add_v (fst acc) (contrib b), snd acc + 1))"

section \<open>Boundary reflection\<close>

lemma edges_rgb:
  "rgb (edges b) =
     createVector (if vx (rgb b) > 255 then 255 else if vx (rgb b) < 0 then 0 else vx (rgb b))
                  (if vy (rgb b) > 255 then 255 else if vy (rgb b) < 0 then 0 else vy (rgb b))
                  (if vz (rgb b) > 255 then 255 else if vz (rgb b) < 0 then 0 else vz (rgb b))"
  by (simp add: edges_def Let_def)

lemma edges_rgbVel:
  "rgbVel (edges b) =
     createVector (if vx (rgb b) > 255 \<or> vx (rgb b) < 0 then - vx (rgbVel b) else vx (rgbVel b))
                  (if vy (rgb b) > 255 \<or> vy (rgb b) < 0 then - vy (rgbVel b) else vy (rgbVel b))
                  (if vz (rgb b) > 255 \<or> vz (rgb b) < 0 then - vz (rgbVel b) else vz (rgbVel b))"
  by (simp add: edges_def Let_def)

lemma edges_other:
  "rgbAcc (edges b) = rgbAcc b" "maxspeed (edges b) = maxspeed b" "maxforce (edges b) = maxforce b"
  "pos (edges b) = pos b" "size_blk (edges b) = size_blk b" "radius (edges b) = radius b"
  by (simp_all add: edges_def Let_def)

lemma edges_color_ok: "color_ok (rgb (edges b))"
  by (simp add: edges_rgb color_ok_def channel_ok_def)

lemma update_rgb: "rgb (update b) = rgb (edges (b\<lparr> rgbVel := limit_v (add_v (rgbVel b) (rgbAcc b)) (maxspeed b),
      rgb := add_v (rgb b) (limit_v (add_v (rgbVel b) (rgbAcc b)) (maxspeed b)) \<rparr>))"
  by (simp add: update_def Let_def edges_rgb)

lemma update_color_ok: "color_ok (rgb (update b))"
  unfolding update_rgb by (rule edges_color_ok)

section \<open>Magnitudes\<close>

lemma magSq_nonneg: "0 \<le> magSq a"
  by (simp add: magSq_def)

lemma magSq_mult_v: "magSq (mult_v a n) = magSq a * (n * n)"
  by (simp add: magSq_def mult_v_def algebra_simps)

lemma magSq_div_v: "n \<noteq> 0 \<Longrightarrow> magSq (div_v a n) = magSq a / (n * n)"
  by (simp add: magSq_def div_v_def add_divide_distrib)

lemma magSq_limit_v_over:
  assumes "magSq a > m * m"
  shows "magSq (limit_v a m) = m * m"
proof -
  have pos: "0 < magSq a" using assms by (smt (verit) zero_le_square)
  then have s: "sqrt (magSq a) \<noteq> 0" by simp
  have "magSq (mult_v (div_v a (sqrt (magSq a))) m) = magSq a / (sqrt (magSq a) * sqrt (magSq a)) * (m * m)"
    by (simp only: magSq_mult_v magSq_div_v [OF s])
  also have "\<dots> = m * m" using pos by simp
  finally show ?thesis using assms by (simp add: limit_v_def)
qed

lemma mag_limit_v:
  assumes "0 \<le> m"
  shows "mag (limit_v a m) \<le> m"
proof (cases "magSq a > m * m")
  case True
  then have "mag (limit_v a m) = sqrt (m * m)"
    by (simp only: mag_def magSq_limit_v_over)
  then show ?thesis using assms by simp
next
  case False
  then have "magSq a \<le> m * m" by simp
  then have "sqrt (magSq a) \<le> sqrt (m * m)" by (simp only: real_sqrt_le_iff)
  then show ?thesis using False assms by (simp add: limit_v_def mag_def)
qed

lemma mag_edges: "mag (rgbVel (edges b)) = mag (rgbVel b)"
  by (cases "rgbVel b") (simp add: edges_rgbVel mag_def magSq_def)

lemma update_rgbVel: "rgbVel (update b) = rgbVel (edges (b\<lparr> rgbVel := limit_v (add_v (rgbVel b) (rgbAcc b)) (maxspeed b),
      rgb := add_v (rgb b) (limit_v (add_v (rgbVel b) (rgbAcc b)) (maxspeed b)) \<rparr>))"
  by (simp add: update_def Let_def edges_rgbVel edges_rgb)

lemma update_maxspeed: "maxspeed (update b) = maxspeed b"
  by (simp add: update_def Let_def edges_other)

section \<open>Degenerate vectors\<close>

lemma mag_zero_vector: "mag (createVector 0 0 0) = 0"
  by (simp add: mag_def magSq_def)

lemma normalize_v_zero: "normalize_v (createVector 0 0 0) = createVector 0 0 0"
  by (simp add: normalize_v_def mag_zero_vector)

lemma sub_v_self: "sub_v a a = createVector 0 0 0"
  by (simp add: sub_v_def)

lemma limit_v_zero: "limit_v (createVector 0 0 0) m = createVector 0 0 0"
  by (simp add: limit_v_def magSq_def not_less)

lemma mag_axis: "mag (createVector a 0 0) = \<bar>a\<bar>"
  by (simp add: mag_def magSq_def)

lemma normalize_v_axis: "normalize_v (createVector a 0 0) = createVector (sgn a) 0 0"
  by (simp add: normalize_v_def mag_axis mult_v_def sgn_real_def)

lemma limit_v_axis:
  "limit_v (createVector a 0 0) m =
     (if a * a > m * m then createVector (sgn a * m) 0 0 else createVector a 0 0)"
proof -
  have "sqrt (a * a) = \<bar>a\<bar>" by simp
  then show ?thesis
    by (auto simp add: limit_v_def magSq_def div_v_def mult_v_def sgn_real_def)
qed

lemma seek_at_color:
  "seek b (rgb b) = limit_v (sub_v (createVector 0 0 0) (rgbVel b)) (maxforce b)"
  by (simp add: seek_def Let_def sub_v_self normalize_v_zero mult_v_def)

lemma limit_v_eq_zero_iff:
  assumes "0 < m"
  shows "limit_v a m = createVector 0 0 0 \<longleftrightarrow> a = createVector 0 0 0"
proof
  assume z: "limit_v a m = createVector 0 0 0"
  show "a = createVector 0 0 0"
  proof (cases "magSq a > m * m")
    case True
    then have "magSq (limit_v a m) = m * m" by (rule magSq_limit_v_over)
    then have "m * m = 0" using z by (simp add: magSq_def)
    then show ?thesis using assms by simp
  next
    case False
    then show ?thesis using z by (simp add: limit_v_def)
  qed
next
  assume "a = createVector 0 0 0"
  then show "limit_v a m = createVector 0 0 0" by (simp add: limit_v_zero)
qed

lemma mag_seek: "0 \<le> maxforce b \<Longrightarrow> mag (seek b t) \<le> maxforce b"
  by (simp add: seek_def Let_def mag_limit_v)

section \<open>The neighbour loops\<close>

lemma separate_loop_filter:
  "separate_loop this (filter (\<lambda>slot. slot \<noteq> None) blocks) acc = separate_loop this blocks acc"
  by (induction this blocks acc rule: separate_loop.induct) simp_all

lemma align_loop_filter:
  "align_loop (filter (\<lambda>slot. slot \<noteq> None) blocks) acc = align_loop blocks acc"
  by (induction blocks acc rule: align_loop.induct) simp_all

lemma cohesion_loop_filter:
  "cohesion_loop (filter (\<lambda>slot. slot \<noteq> None) blocks) acc = cohesion_loop blocks acc"
  by (induction blocks acc rule: cohesion_loop.induct) simp_all

lemma add_v_zero: "add_v (createVector 0 0 0) a = a" "add_v a (createVector 0 0 0) = a"
  by (simp_all add: add_v_def)

lemma mult_v_zero: "mult_v (createVector 0 0 0) n = createVector 0 0 0" "mult_v a 0 = createVector 0 0 0"
  by (simp_all add: mult_v_def)

lemma div_v_one: "div_v a 1 = a"
  by (simp add: div_v_def)

lemma lone_forces:
  assumes "rgbVel b = createVector 0 0 0"
  shows "separate b [Some b] = createVector 0 0 0"
    and "align b [Some b] = createVector 0 0 0"
    and "cohesion b [Some b] = createVector 0 0 0"
  using assms
  by (simp_all add: separate_def align_def cohesion_def seek_def Let_def sub_v_self normalize_v_zero
        add_v_zero mult_v_zero div_v_one limit_v_zero)

lemma lone_flock:
  assumes "rgbVel b = createVector 0 0 0" "rgbAcc b = createVector 0 0 0"
  shows "flock g [Some b] b = b"
  using assms by (simp add: flock_def Let_def lone_forces mult_v_zero applyForce_def add_v_zero)

lemma edges_in_range: "color_ok (rgb b) \<Longrightarrow> edges b = b"
  by (simp add: edges_def Let_def color_ok_def channel_ok_def)

lemma still_update:
  assumes "rgbVel b = createVector 0 0 0" "rgbAcc b = createVector 0 0 0" "color_ok (rgb b)"
  shows "update b = b"
proof -
  have "b\<lparr>rgbVel := createVector 0 0 0, rgb := rgb b\<rparr> = b"
    using assms(1) by simp
  then show ?thesis
    using assms by (simp add: update_def Let_def add_v_zero limit_v_zero edges_in_range mult_v_zero)
qed

lemma separate_loop_cong:
  "list_all2 same_motion bs cs \<Longrightarrow> separate_loop this bs acc = separate_loop this cs acc"
proof (induction bs cs arbitrary: acc rule: list_all2_induct)
  case Nil
  then show ?case by (cases acc) simp
next
  case (Cons s bs t cs)
  then show ?case
    by (cases acc; cases s; cases t) (simp_all add: same_motion_def)
qed

lemma align_loop_cong:
  "list_all2 same_motion bs cs \<Longrightarrow> align_loop bs acc = align_loop cs acc"
proof (induction bs cs arbitrary: acc rule: list_all2_induct)
  case Nil
  then show ?case by (cases acc) simp
next
  case (Cons s bs t cs)
  then show ?case
    by (cases acc; cases s; cases t) (simp_all add: same_motion_def)
qed

lemma cohesion_loop_cong:
  "list_all2 same_motion bs cs \<Longrightarrow> cohesion_loop bs acc = cohesion_loop cs acc"
proof (induction bs cs arbitrary: acc rule: list_all2_induct)
  case Nil
  then show ?case by (cases acc) simp
next
  case (Cons s bs t cs)
  then show ?case
    by (cases acc; cases s; cases t) (simp_all add: same_motion_def)
qed

lemma flock_cong:
  assumes "list_all2 same_motion bs cs"
  shows "flock g bs b = flock g cs b"
  by (simp only: flock_def separate_def align_def cohesion_def
        separate_loop_cong [OF assms] align_loop_cong [OF assms] cohesion_loop_cong [OF assms])

lemma flock_motion: "rgb (flock g bs b) = rgb b" "rgbVel (flock g bs b) = rgbVel b"
  by (simp_all add: flock_def Let_def applyForce_def)

lemma same_motion_refl: "list_all2 same_motion bs bs"
  by (simp add: list_all2_conv_all_nth same_motion_def option.rel_refl)

lemma flock_at_length: "length (flock_at g i cur) = length cur"
  by (simp add: flock_at_def split: option.split)

lemma flock_at_nth:
  assumes "list_all2 same_motion cur blocks" "j < length cur"
  shows "flock_at g i cur ! j = (if j = i then map_option (flock g blocks) (cur ! j) else cur ! j)"
  using assms(2) flock_cong [OF assms(1)]
  by (simp add: flock_at_def split: option.split)

lemma flock_at_same_motion:
  assumes "list_all2 same_motion cur blocks"
  shows "list_all2 same_motion (flock_at g i cur) blocks"
proof -
  have "same_motion (flock_at g i cur ! j) (blocks ! j)" if "j < length cur" for j
  proof -
    have "same_motion (cur ! j) (blocks ! j)"
      using assms that by (simp add: list_all2_conv_all_nth)
    then show ?thesis
      by (cases "cur ! j"; cases "blocks ! j")
         (auto simp add: flock_at_nth [OF assms that] same_motion_def flock_motion)
  qed
  then show ?thesis
    using assms by (simp add: list_all2_conv_all_nth flock_at_length)
qed

lemma fold_flock_at:
  assumes "distinct order" "list_all2 same_motion cur blocks"
  shows "fold (flock_at g) order cur =
           map (\<lambda>j. if j \<in> set order then map_option (flock g blocks) (cur ! j) else cur ! j)
               [0..<length cur]"
  using assms
proof (induction order arbitrary: cur)
  case Nil
  then show ?case by (simp add: map_nth)
next
  case (Cons i order)
  have d: "distinct order" "i \<notin> set order" using Cons.prems(1) by simp_all
  have sm: "list_all2 same_motion (flock_at g i cur) blocks"
    by (rule flock_at_same_motion [OF Cons.prems(2)])
  have "fold (flock_at g) (i # order) cur = fold (flock_at g) order (flock_at g i cur)"
    by simp
  also have "\<dots> = map (\<lambda>j. if j \<in> set order then map_option (flock g blocks) (flock_at g i cur ! j)
                             else flock_at g i cur ! j) [0..<length cur]"
    by (simp only: Cons.IH [OF d(1) sm] flock_at_length)
  also have "\<dots> = map (\<lambda>j. if j \<in> set (i # order) then map_option (flock g blocks) (cur ! j) else cur ! j)
                       [0..<length cur]"
    using d(2) by (auto simp add: flock_at_nth [OF Cons.prems(2)])
  finally show ?case .
qed

lemma update_at_length: "length (update_at i cur) = length cur"
  by (simp add: update_at_def split: option.split)

lemma update_at_nth:
  "j < length cur \<Longrightarrow> update_at i cur ! j = (if j = i then map_option update (cur ! j) else cur ! j)"
  by (simp add: update_at_def split: option.split)

lemma fold_update_at:
  assumes "distinct order"
  shows "fold update_at order cur =
           map (\<lambda>j. if j \<in> set order then map_option update (cur ! j) else cur ! j) [0..<length cur]"
  using assms
proof (induction order arbitrary: cur)
  case Nil
  then show ?case by (simp add: map_nth)
next
  case (Cons i order)
  have d: "distinct order" "i \<notin> set order" using Cons.prems by simp_all
  have "fold update_at (i # order) cur = fold update_at order (update_at i cur)"
    by simp
  also have "\<dots> = map (\<lambda>j. if j \<in> set order then map_option update (update_at i cur ! j)
                             else update_at i cur ! j) [0..<length cur]"
    by (simp only: Cons.IH [OF d(1)] update_at_length)
  also have "\<dots> = map (\<lambda>j. if j \<in> set (i # order) then map_option update (cur ! j) else cur ! j)
                       [0..<length cur]"
    using d(2) by (auto simp add: update_at_nth)
  finally show ?case .
qed

lemma map_upt_nth:
  assumes "\<And>j. j < length xs \<Longrightarrow> f j = h (xs ! j)"
  shows "map f [0..<length xs] = map h xs"
  by (rule nth_equalityI) (simp_all add: assms)

lemma step_in_order_closed_form:
  assumes "distinct order" "set order = {0..<length blocks}"
  shows "step_in_order g order blocks = map (map_option (\<lambda>b. update (flock g blocks b))) blocks"
proof -
  let ?mid = "map (map_option (flock g blocks)) blocks"
  have "fold (flock_at g) order blocks =
          map (\<lambda>j. if j \<in> set order then map_option (flock g blocks) (blocks ! j) else blocks ! j)
              [0..<length blocks]"
    by (rule fold_flock_at [OF assms(1) same_motion_refl])
  also have "\<dots> = ?mid"
    by (rule map_upt_nth) (simp add: assms(2))
  finally have f: "fold (flock_at g) order blocks = ?mid" .
  have len: "length ?mid = length blocks" by simp
  have "fold update_at order ?mid =
          map (\<lambda>j. if j \<in> set order then map_option update (?mid ! j) else ?mid ! j) [0..<length blocks]"
    by (simp only: fold_update_at [OF assms(1)] len)
  also have "\<dots> = map (map_option (\<lambda>b. update (flock g blocks b))) blocks"
    by (rule map_upt_nth) (simp add: assms(2) option.map_comp comp_def)
  finally show ?thesis by (simp only: step_in_order_def f)
qed

lemma add_v_swap: "add_v (add_v s a) b = add_v (add_v s b) a"
  by (simp add: add_v_def)

lemma gather_permuted:
  fixes contrib :: "block \<Rightarrow> vector"
  defines "visit \<equiv> (\<lambda>slot (acc :: vector \<times> nat).
      case slot of None \<Rightarrow> acc | Some b \<Rightarrow> (add_v (fst acc) (contrib b), snd acc + 1))"
  assumes "mset bs = mset cs"
  shows "fold visit bs acc = fold visit cs acc"
proof -
  have "visit s \<circ> visit t = visit t \<circ> visit s" for s t
    by (cases s; cases t) (simp_all add: visit_def fun_eq_iff add_v_swap)
  then have "fold visit bs = fold visit cs"
    using assms(2) by (intro fold_multiset_equiv)
  then show ?thesis by simp
qed

lemma separate_loop_fold:
  "separate_loop this bs acc =
     fold (\<lambda>slot acc. case slot of None \<Rightarrow> acc
             | Some b \<Rightarrow> (add_v (fst acc) (normalize_v (sub_v (rgb this) (rgb b))), snd acc + 1)) bs acc"
  by (induction this bs acc rule: separate_loop.induct) simp_all

lemma align_loop_fold:
  "align_loop bs acc =
     fold (\<lambda>slot acc. case slot of None \<Rightarrow> acc | Some b \<Rightarrow> (add_v (fst acc) (rgbVel b), snd acc + 1)) bs acc"
  by (induction bs acc rule: align_loop.induct) simp_all

lemma cohesion_loop_fold:
  "cohesion_loop bs acc =
     fold (\<lambda>slot acc. case slot of None \<Rightarrow> acc | Some b \<Rightarrow> (add_v (fst acc) (rgb b), snd acc + 1)) bs acc"
  by (induction bs acc rule: cohesion_loop.induct) simp_all

lemma flock_permuted:
  assumes "mset bs = mset cs"
  shows "flock g bs b = flock g cs b"
proof -
  have "separate_loop b bs acc = separate_loop b cs acc" for acc
    unfolding separate_loop_fold by (rule gather_permuted [OF assms])
  moreover have "align_loop bs acc = align_loop cs acc" for acc
    unfolding align_loop_fold by (rule gather_permuted [OF assms])
  moreover have "cohesion_loop bs acc = cohesion_loop cs acc" for acc
    unfolding cohesion_loop_fold by (rule gather_permuted [OF assms])
  ultimately show ?thesis
    by (simp only: flock_def separate_def align_def cohesion_def)
qed

lemma mset_reordered:
  assumes "distinct order" "set order = {0..<length blocks}"
  shows "mset (map ((!) blocks) order) = mset blocks"
proof -
  have "set order = set [0..<length blocks]" "distinct [0..<length blocks]"
    using assms(2) by simp_all
  then have "mset order = mset [0..<length blocks]"
    using assms(1) by (simp only: set_eq_iff_mset_eq_distinct)
  then have "mset (map ((!) blocks) order) = mset (map ((!) blocks) [0..<length blocks])"
    by (simp only: mset_map)
  then show ?thesis by (simp add: map_nth)
qed

lemma step_closed_form:
  "step g blocks = map (map_option (\<lambda>b. update (flock g blocks b))) blocks"
  unfolding step_def by (rule step_in_order_closed_form) simp_all

section \<open>The agent's own slot\<close>

lemma mag_zero_iff: "mag a = 0 \<longleftrightarrow> a = createVector 0 0 0"
proof (cases a)
  case (createVector x y z)
  have "x * x + y * y + z * z = 0 \<longleftrightarrow> x = 0 \<and> y = 0 \<and> z = 0"
    by (smt (verit) mult_eq_0_iff not_sum_squares_lt_zero zero_le_square)
  then show ?thesis using createVector by (simp add: mag_def magSq_def)
qed

lemma mag_mult_v: "0 < k \<Longrightarrow> mag (mult_v v k) = mag v * k"
  by (simp add: mag_def magSq_mult_v real_sqrt_mult)

lemma normalize_v_scale:
  assumes "0 < k"
  shows "normalize_v (mult_v v k) = normalize_v v"
proof (cases "mag v = 0")
  case True
  then have "v = createVector 0 0 0" by (simp only: mag_zero_iff)
  then show ?thesis by (simp add: mult_v_def)
next
  case False
  have m: "mag (mult_v v k) = mag v * k" using assms by (rule mag_mult_v)
  have "x * k * (1 / (mag v * k)) = x * (1 / mag v)" for x
    using False assms by simp
  then have "mult_v (mult_v v k) (1 / (mag v * k)) = mult_v v (1 / mag v)"
    by (simp only: mult_v_def vector.sel)
  then show ?thesis
    using False assms by (simp only: normalize_v_def m) simp
qed

lemma div_v_as_mult: "k \<noteq> 0 \<Longrightarrow> div_v v k = mult_v v (1 / k)"
  by (simp add: div_v_def mult_v_def)

lemma normalize_v_div:
  assumes "0 < k"
  shows "normalize_v (div_v v k) = normalize_v v"
  using assms by (simp add: div_v_as_mult normalize_v_scale)

lemma gather_Nil: "gather contrib [] acc = acc"
  by (simp add: gather_def)

lemma gather_None: "gather contrib (None # bs) acc = gather contrib bs acc"
  by (simp add: gather_def)

lemma gather_Some:
  "gather contrib (Some b # bs) acc = gather contrib bs (add_v (fst acc) (contrib b), snd acc + 1)"
  by (simp add: gather_def)

lemma gather_shift:
  "gather contrib bs (add_v s c, Suc n) =
     (add_v (fst (gather contrib bs (s, n))) c, Suc (snd (gather contrib bs (s, n))))"
proof (induction bs arbitrary: s n)
  case Nil
  then show ?case by (simp add: gather_Nil)
next
  case (Cons slot bs)
  show ?case
  proof (cases slot)
    case None
    then show ?thesis by (simp add: gather_None Cons.IH)
  next
    case (Some b)
    have "gather contrib (Some b # bs) (add_v s c, Suc n)
            = gather contrib bs (add_v (add_v s (contrib b)) c, Suc (Suc n))"
      by (simp add: gather_Some add_v_swap)
    also have "\<dots> = (add_v (fst (gather contrib bs (add_v s (contrib b), Suc n))) c,
                      Suc (snd (gather contrib bs (add_v s (contrib b), Suc n))))"
      by (rule Cons.IH)
    finally show ?thesis using Some by (simp add: gather_Some)
  qed
qed

lemma gather_insert:
  "gather contrib (xs @ Some a # ys) (createVector 0 0 0, 0) =
     (add_v (fst (gather contrib (xs @ ys) (createVector 0 0 0, 0))) (contrib a),
      snd (gather contrib (xs @ ys) (createVector 0 0 0, 0)) + 1)"
proof -
  have "mset (xs @ Some a # ys) = mset (Some a # xs @ ys)" by simp
  then have "gather contrib (xs @ Some a # ys) (createVector 0 0 0, 0)
               = gather contrib (Some a # xs @ ys) (createVector 0 0 0, 0)"
    unfolding gather_def by (rule gather_permuted)
  also have "\<dots> = gather contrib (xs @ ys) (add_v (createVector 0 0 0) (contrib a), Suc 0)"
    by (simp add: gather_Some)
  finally show ?thesis by (simp add: gather_shift)
qed

lemma gather_count:
  "snd (gather contrib bs (s, n)) = n + length (filter (\<lambda>slot. slot \<noteq> None) bs)"
proof (induction bs arbitrary: s n)
  case Nil
  then show ?case by (simp add: gather_Nil)
next
  case (Cons slot bs)
  then show ?case by (cases slot) (simp_all add: gather_None gather_Some)
qed

lemma gather_positive:
  assumes "Some b \<in> set bs"
  shows "0 < snd (gather contrib bs (s, 0))"
proof -
  have "Some b \<in> set (filter (\<lambda>slot. slot \<noteq> None) bs)" using assms by simp
  then have "filter (\<lambda>slot. slot \<noteq> None) bs \<noteq> []" by (metis empty_iff empty_set)
  then show ?thesis by (simp only: gather_count) simp
qed

lemma gather_all_null:
  assumes "\<forall>slot \<in> set bs. slot = None"
  shows "gather contrib bs acc = acc"
  using assms by (induction bs) (simp_all add: gather_Nil gather_None)

lemma separate_loop_gather:
  "separate_loop this bs acc = gather (\<lambda>b. normalize_v (sub_v (rgb this) (rgb b))) bs acc"
  by (simp only: separate_loop_fold gather_def)

lemma align_loop_gather: "align_loop bs acc = gather rgbVel bs acc"
  by (simp only: align_loop_fold gather_def)

lemma cohesion_loop_gather: "cohesion_loop bs acc = gather rgb bs acc"
  by (simp only: cohesion_loop_fold gather_def)

lemma separate_with_self:
  assumes "Some b \<in> set (xs @ ys)"
  shows "separate a (xs @ Some a # ys) = separate a (xs @ ys)"
proof -
  let ?c = "\<lambda>b. normalize_v (sub_v (rgb a) (rgb b))"
  obtain S n where g: "gather ?c (xs @ ys) (createVector 0 0 0, 0) = (S, n)"
    by (cases "gather ?c (xs @ ys) (createVector 0 0 0, 0)")
  have n: "0 < n" using gather_positive [OF assms, of ?c "createVector 0 0 0"] g by simp
  have "gather ?c (xs @ Some a # ys) (createVector 0 0 0, 0) = (S, n + 1)"
    by (simp add: gather_insert g sub_v_self normalize_v_zero add_v_zero)
  moreover have "normalize_v (div_v S (real (n + 1))) = normalize_v (div_v S (real n))"
    using n by (simp add: normalize_v_div)
  ultimately show ?thesis
    using n g by (simp add: separate_def separate_loop_gather Let_def del: of_nat_Suc of_nat_add)
qed

lemma centroid_channel:
  fixes x c m :: real
  assumes "0 < m"
  shows "(x + c) / (m + 1) - c = (x / m - c) * (m / (m + 1))"
proof -
  have "x / m - c = (x - m * c) / m"
    using assms by (simp add: diff_divide_distrib)
  then have "(x / m - c) * (m / (m + 1)) = (x - m * c) / m * (m / (m + 1))"
    by simp
  also have "\<dots> = (x - m * c) / (m + 1)"
    using assms by simp
  finally have r: "(x / m - c) * (m / (m + 1)) = (x - m * c) / (m + 1)" .
  have "c = c * (m + 1) / (m + 1)" using assms by simp
  then have "(x + c) / (m + 1) - c = (x + c) / (m + 1) - c * (m + 1) / (m + 1)"
    by simp
  also have "\<dots> = (x + c - c * (m + 1)) / (m + 1)"
    by (simp only: diff_divide_distrib)
  also have "x + c - c * (m + 1) = x - m * c"
    by (simp add: algebra_simps)
  finally have l: "(x + c) / (m + 1) - c = (x - m * c) / (m + 1)" .
  show ?thesis by (simp only: l r)
qed

lemma centroid_with_self:
  assumes "0 < n"
  shows "sub_v (div_v (add_v S c) (real n + 1)) c
           = mult_v (sub_v (div_v S (real n)) c) (real n / (real n + 1))"
proof -
  have m: "0 < real n" using assms by simp
  have nz: "real n + 1 \<noteq> 0" "real n \<noteq> 0" using m by simp_all
  show ?thesis
    by (simp only: sub_v_def div_v_def add_v_def mult_v_def nz if_False vector.sel
          centroid_channel [OF m])
qed

lemma cohesion_with_self:
  assumes "Some b \<in> set (xs @ ys)"
  shows "cohesion a (xs @ Some a # ys) = cohesion a (xs @ ys)"
proof -
  obtain S n where g: "gather rgb (xs @ ys) (createVector 0 0 0, 0) = (S, n)"
    by (cases "gather rgb (xs @ ys) (createVector 0 0 0, 0)")
  have n: "0 < n" using gather_positive [OF assms, of rgb "createVector 0 0 0"] g by simp
  have w: "gather rgb (xs @ Some a # ys) (createVector 0 0 0, 0) = (add_v S (rgb a), n + 1)"
    by (simp add: gather_insert g)
  have "0 < real n / (real n + 1)" using n by simp
  then have "normalize_v (sub_v (div_v (add_v S (rgb a)) (real n + 1)) (rgb a))
               = normalize_v (sub_v (div_v S (real n)) (rgb a))"
    by (simp only: centroid_with_self [OF n] normalize_v_scale)
  then have "seek a (div_v (add_v S (rgb a)) (real n + 1)) = seek a (div_v S (real n))"
    by (simp only: seek_def Let_def)
  then show ?thesis
    using n by (simp add: cohesion_def cohesion_loop_gather w g add.commute)
qed

lemma alone_results:
  assumes "\<forall>slot \<in> set (xs @ ys). slot = None"
  shows "separate a (xs @ Some a # ys) = limit_v (sub_v (createVector 0 0 0) (rgbVel a)) (maxforce a)"
    and "align a (xs @ Some a # ys) =
           limit_v (sub_v (mult_v (normalize_v (rgbVel a)) (maxspeed a)) (rgbVel a)) (maxforce a)"
    and "cohesion a (xs @ Some a # ys) = limit_v (sub_v (createVector 0 0 0) (rgbVel a)) (maxforce a)"
    and "separate a (xs @ ys) = createVector 0 0 0"
    and "align a (xs @ ys) = createVector 0 0 0"
    and "cohesion a (xs @ ys) = createVector 0 0 0"
proof -
  have g: "gather contrib (xs @ ys) acc = acc" for contrib acc
    by (rule gather_all_null [OF assms])
  show "separate a (xs @ Some a # ys) = limit_v (sub_v (createVector 0 0 0) (rgbVel a)) (maxforce a)"
    by (simp add: separate_def separate_loop_gather gather_insert g Let_def sub_v_self
          normalize_v_zero add_v_zero div_v_one mult_v_zero)
  show "align a (xs @ Some a # ys) =
          limit_v (sub_v (mult_v (normalize_v (rgbVel a)) (maxspeed a)) (rgbVel a)) (maxforce a)"
    by (simp add: align_def align_loop_gather gather_insert g Let_def add_v_zero div_v_one)
  show "cohesion a (xs @ Some a # ys) = limit_v (sub_v (createVector 0 0 0) (rgbVel a)) (maxforce a)"
    by (simp add: cohesion_def cohesion_loop_gather gather_insert g add_v_zero div_v_one seek_at_color)
  show "separate a (xs @ ys) = createVector 0 0 0"
    by (simp add: separate_def separate_loop_gather g)
  show "align a (xs @ ys) = createVector 0 0 0"
    by (simp add: align_def align_loop_gather g)
  show "cohesion a (xs @ ys) = createVector 0 0 0"
    by (simp add: cohesion_def cohesion_loop_gather g)
qed

section \<open>Claims about a single block\<close>

text \<open>
  C1. Boundary invariant: if every colour channel of an agent starts in [0, 255], then
  after any number of frames, each frame calling \<^verbatim>\<open>flock\<close> on an arbitrary peer array
  and then \<^verbatim>\<open>update\<close> (whose boundary pass is \<^verbatim>\<open>edges\<close>), every colour channel
  lies in [0, 255]. The list \<open>frames\<close> holds the peer array seen at each frame.
\<close>

theorem boundary_invariant:
  assumes "color_ok (rgb b)"
  shows "color_ok (rgb (fold (\<lambda>blocks this. update (flock g blocks this)) frames b))"
proof (cases frames rule: rev_cases)
  case Nil
  then show ?thesis using assms by simp
next
  case (snoc earlier blocks)
  then show ?thesis by (simp add: update_color_ok)
qed

text \<open>An instance of C1: two frames from the example block.\<close>

theorem boundary_invariant_witness:
  "color_ok (rgb example_block) \<and>
   color_ok (rgb (fold (\<lambda>blocks this. update (flock \<lparr>sepSlider = 1.2, aliSlider = 1, cohSlider = 2\<rparr> blocks this))
      [[Some example_block], [None]] example_block))"
proof -
  have h: "color_ok (rgb example_block)"
    by (simp add: example_block_def Block_def color_ok_def channel_ok_def)
  show ?thesis using h boundary_invariant [OF h] by (intro conjI)
qed

text \<open>
  C7. \<^verbatim>\<open>edges\<close> acts on each channel on its own: a channel above 255 is set to 255 and
  its velocity component negated, a channel below 0 is set to 0 and its velocity
  component negated, a channel in range keeps its value and its velocity component;
  what happens to one channel depends on that channel alone, and nothing else of the
  block changes.
\<close>

theorem edges_channelwise:
  "(vx (rgb b) > 255 \<longrightarrow> vx (rgb (edges b)) = 255 \<and> vx (rgbVel (edges b)) = - vx (rgbVel b)) \<and>
   (vx (rgb b) < 0 \<longrightarrow> vx (rgb (edges b)) = 0 \<and> vx (rgbVel (edges b)) = - vx (rgbVel b)) \<and>
   (0 \<le> vx (rgb b) \<and> vx (rgb b) \<le> 255 \<longrightarrow>
      vx (rgb (edges b)) = vx (rgb b) \<and> vx (rgbVel (edges b)) = vx (rgbVel b)) \<and>
   (vy (rgb b) > 255 \<longrightarrow> vy (rgb (edges b)) = 255 \<and> vy (rgbVel (edges b)) = - vy (rgbVel b)) \<and>
   (vy (rgb b) < 0 \<longrightarrow> vy (rgb (edges b)) = 0 \<and> vy (rgbVel (edges b)) = - vy (rgbVel b)) \<and>
   (0 \<le> vy (rgb b) \<and> vy (rgb b) \<le> 255 \<longrightarrow>
      vy (rgb (edges b)) = vy (rgb b) \<and> vy (rgbVel (edges b)) = vy (rgbVel b)) \<and>
   (vz (rgb b) > 255 \<longrightarrow> vz (rgb (edges b)) = 255 \<and> vz (rgbVel (edges b)) = - vz (rgbVel b)) \<and>
   (vz (rgb b) < 0 \<longrightarrow> vz (rgb (edges b)) = 0 \<and> vz (rgbVel (edges b)) = - vz (rgbVel b)) \<and>
   (0 \<le> vz (rgb b) \<and> vz (rgb b) \<le> 255 \<longrightarrow>
      vz (rgb (edges b)) = vz (rgb b) \<and> vz (rgbVel (edges b)) = vz (rgbVel b)) \<and>
   rgbAcc (edges b) = rgbAcc b \<and> maxspeed (edges b) = maxspeed b \<and> maxforce (edges b) = maxforce b"
  by (simp add: edges_rgb edges_rgbVel edges_other)

text \<open>Instances of C7 that, between them, take every branch on every channel.\<close>

theorem edges_channelwise_witness:
  "edges (example_block\<lparr> rgb := createVector 256 (- 1) 100, rgbVel := createVector 1 (- 1) 0.5 \<rparr>)
     = example_block\<lparr> rgb := createVector 255 0 100, rgbVel := createVector (- 1) 1 0.5 \<rparr> \<and>
   edges (example_block\<lparr> rgb := createVector (- 1) 100 256, rgbVel := createVector (- 1) 0.5 1 \<rparr>)
     = example_block\<lparr> rgb := createVector 0 100 255, rgbVel := createVector 1 0.5 (- 1) \<rparr> \<and>
   edges (example_block\<lparr> rgb := createVector 100 256 (- 1), rgbVel := createVector 0.5 1 (- 1) \<rparr>)
     = example_block\<lparr> rgb := createVector 100 255 0, rgbVel := createVector 0.5 (- 1) 1 \<rparr>"
proof -
  let ?b1 = "example_block\<lparr> rgb := createVector 256 (- 1) 100, rgbVel := createVector 1 (- 1) 0.5 \<rparr>"
  let ?b2 = "example_block\<lparr> rgb := createVector (- 1) 100 256, rgbVel := createVector (- 1) 0.5 1 \<rparr>"
  let ?b3 = "example_block\<lparr> rgb := createVector 100 256 (- 1), rgbVel := createVector 0.5 1 (- 1) \<rparr>"
  have other: "pos (edges c) = pos c" "size_blk (edges c) = size_blk c" "radius (edges c) = radius c" for c
    by (simp_all add: edges_other)
  have eq: "c = d" if "pos c = pos d" "vx (rgb c) = vx (rgb d)" "vy (rgb c) = vy (rgb d)" "vz (rgb c) = vz (rgb d)"
      "vx (rgbVel c) = vx (rgbVel d)" "vy (rgbVel c) = vy (rgbVel d)" "vz (rgbVel c) = vz (rgbVel d)"
      "rgbAcc c = rgbAcc d" "size_blk c = size_blk d" "radius c = radius d"
      "maxspeed c = maxspeed d" "maxforce c = maxforce d" for c d :: block
    using that by (simp add: block.equality vector.expand)
  have "edges ?b1 = example_block\<lparr> rgb := createVector 255 0 100, rgbVel := createVector (- 1) 1 0.5 \<rparr>"
    using edges_channelwise [of ?b1] by (intro eq) (simp_all add: other)
  moreover have "edges ?b2 = example_block\<lparr> rgb := createVector 0 100 255, rgbVel := createVector 1 0.5 (- 1) \<rparr>"
    using edges_channelwise [of ?b2] by (intro eq) (simp_all add: other)
  moreover have "edges ?b3 = example_block\<lparr> rgb := createVector 100 255 0, rgbVel := createVector 0.5 (- 1) 1 \<rparr>"
    using edges_channelwise [of ?b3] by (intro eq) (simp_all add: other)
  ultimately show ?thesis by simp
qed

text \<open>
  C4. Speed invariant: for a block whose \<^verbatim>\<open>maxspeed\<close> is not negative (the constructor
  sets 1.5) and any accumulated acceleration, the colour velocity after \<^verbatim>\<open>update\<close>,
  boundary reflection included, has magnitude at most \<^verbatim>\<open>maxspeed\<close>.
\<close>

theorem speed_invariant:
  assumes "0 \<le> maxspeed b"
  shows "mag (rgbVel (update b)) \<le> maxspeed b \<and> maxspeed (update b) = maxspeed b"
  using assms by (simp add: update_rgbVel update_maxspeed mag_edges mag_limit_v)

text \<open>An instance of C4: the example block pushed by a force of magnitude 3.\<close>

theorem speed_invariant_witness:
  "0 \<le> maxspeed (applyForce (createVector 3 0 0) example_block) \<and>
   mag (rgbVel (update (applyForce (createVector 3 0 0) example_block))) \<le> 1.5"
proof -
  have h: "0 \<le> maxspeed (applyForce (createVector 3 0 0) example_block)"
    by (simp add: applyForce_def example_block_def Block_def)
  have m: "maxspeed (applyForce (createVector 3 0 0) example_block) = 1.5"
    by (simp add: applyForce_def example_block_def Block_def)
  show ?thesis using h speed_invariant [OF h] by (simp add: m)
qed

text \<open>
  C9. After \<^verbatim>\<open>update\<close> the acceleration accumulator is the zero vector; the velocity
  of the updated block is the one integrated from the accumulator as it was before, so
  the accumulator is cleared after it has been consumed; and the accumulator after the
  next frame's \<^verbatim>\<open>flock\<close> holds that frame's three scaled forces only.
\<close>

theorem acceleration_reset:
  "rgbAcc (update b) = createVector 0 0 0 \<and>
   rgbVel (update b) =
     rgbVel (edges (b\<lparr> rgbVel := limit_v (add_v (rgbVel b) (rgbAcc b)) (maxspeed b),
                        rgb := add_v (rgb b) (limit_v (add_v (rgbVel b) (rgbAcc b)) (maxspeed b)) \<rparr>)) \<and>
   rgbAcc (flock g blocks (update b)) =
     add_v (add_v (add_v (createVector 0 0 0) (mult_v (separate (update b) blocks) (sepSlider g)))
                  (mult_v (align (update b) blocks) (aliSlider g)))
           (mult_v (cohesion (update b) blocks) (cohSlider g))"
proof -
  have "rgbAcc (update b) = createVector 0 0 0"
    by (simp add: update_def Let_def mult_v_def edges_other)
  then show ?thesis
    by (simp add: update_rgbVel flock_def Let_def applyForce_def)
qed

text \<open>An instance of C9: the example block after a force of magnitude 3 was applied.\<close>

theorem acceleration_reset_witness:
  "rgbAcc (applyForce (createVector 3 0 0) example_block) = createVector 3 0 0 \<and>
   rgbAcc (update (applyForce (createVector 3 0 0) example_block)) = createVector 0 0 0"
  using acceleration_reset [of "applyForce (createVector 3 0 0) example_block"]
  by (simp add: applyForce_def example_block_def Block_def add_v_def)

text \<open>
  C10. With random draws in [0, 256), a block is constructed with zero colour velocity,
  zero colour acceleration and every colour component an integer in [0, 255];
  \<^verbatim>\<open>randomizeColor\<close> gives a colour with the same property.
\<close>

theorem Block_initial_state:
  assumes "0 \<le> r1" "r1 < 256" "0 \<le> r2" "r2 < 256" "0 \<le> r3" "r3 < 256"
  shows "rgbVel (Block x y s r1 r2 r3) = createVector 0 0 0 \<and>
         rgbAcc (Block x y s r1 r2 r3) = createVector 0 0 0 \<and>
         vx (rgb (Block x y s r1 r2 r3)) \<in> \<int> \<and>
         vy (rgb (Block x y s r1 r2 r3)) \<in> \<int> \<and>
         vz (rgb (Block x y s r1 r2 r3)) \<in> \<int> \<and>
         color_ok (rgb (Block x y s r1 r2 r3)) \<and>
         vx (rgb (randomizeColor r1 r2 r3 b)) \<in> \<int> \<and>
         vy (rgb (randomizeColor r1 r2 r3 b)) \<in> \<int> \<and>
         vz (rgb (randomizeColor r1 r2 r3 b)) \<in> \<int> \<and>
         color_ok (rgb (randomizeColor r1 r2 r3 b))"
proof -
  have fl: "0 \<le> (of_int \<lfloor>r\<rfloor> :: real) \<and> (of_int \<lfloor>r\<rfloor> :: real) \<le> 255" if "0 \<le> r" "r < 256" for r :: real
  proof -
    have "\<lfloor>r\<rfloor> < 256" using that by (simp add: floor_less_iff)
    then have "\<lfloor>r\<rfloor> \<le> 255" by simp
    moreover have "0 \<le> \<lfloor>r\<rfloor>" using that by simp
    ultimately show ?thesis by simp
  qed
  show ?thesis
    using fl [OF assms(1,2)] fl [OF assms(3,4)] fl [OF assms(5,6)]
    by (simp add: Block_def randomizeColor_def color_ok_def channel_ok_def)
qed

text \<open>An instance of C10 with draws 255.9, 0 and 17.5.\<close>

theorem Block_initial_state_witness:
  "rgb (Block 0 0 10 255.9 0 17.5) = createVector 255 0 17 \<and>
   color_ok (rgb (Block 0 0 10 255.9 0 17.5)) \<and>
   rgb (randomizeColor 255.9 0 17.5 example_block) = createVector 255 0 17 \<and>
   color_ok (rgb (randomizeColor 255.9 0 17.5 example_block))"
  using Block_initial_state [of "255.9" 0 "17.5" 0 0 10 example_block]
  by (simp add: Block_def randomizeColor_def)

section \<open>Claims about steering\<close>

text \<open>
  C3, as amended. \<^verbatim>\<open>seek\<close> called with the block's own colour as target returns the
  negated colour velocity limited to \<^verbatim>\<open>maxforce\<close>: normalize leaves the zero vector
  as it is, so nothing is divided by zero, but the current velocity is still subtracted.
  The result is the zero vector when the colour velocity is zero, and, for a positive
  \<^verbatim>\<open>maxforce\<close>, not the zero vector when the colour velocity is not zero.
\<close>

theorem seek_own_color:
  "seek b (rgb b) = limit_v (createVector (- vx (rgbVel b)) (- vy (rgbVel b)) (- vz (rgbVel b))) (maxforce b) \<and>
   (rgbVel b = createVector 0 0 0 \<longrightarrow> seek b (rgb b) = createVector 0 0 0) \<and>
   (0 < maxforce b \<and> rgbVel b \<noteq> createVector 0 0 0 \<longrightarrow> seek b (rgb b) \<noteq> createVector 0 0 0)"
proof (intro conjI impI)
  show "seek b (rgb b) = limit_v (createVector (- vx (rgbVel b)) (- vy (rgbVel b)) (- vz (rgbVel b))) (maxforce b)"
    by (simp add: seek_at_color sub_v_def)
next
  assume "rgbVel b = createVector 0 0 0"
  then show "seek b (rgb b) = createVector 0 0 0"
    by (simp add: seek_at_color sub_v_def limit_v_zero)
next
  assume h: "0 < maxforce b \<and> rgbVel b \<noteq> createVector 0 0 0"
  then have "sub_v (createVector 0 0 0) (rgbVel b) \<noteq> createVector 0 0 0"
    by (cases "rgbVel b") (simp add: sub_v_def)
  then show "seek b (rgb b) \<noteq> createVector 0 0 0"
    using h by (simp add: seek_at_color limit_v_eq_zero_iff)
qed

text \<open>Instances of the amended C3: a block at rest, and the example block, which moves.\<close>

theorem seek_own_color_witness:
  "seek (Block 0 0 10 10 20 30) (rgb (Block 0 0 10 10 20 30)) = createVector 0 0 0 \<and>
   0 < maxforce example_block \<and> rgbVel example_block \<noteq> createVector 0 0 0 \<and>
   seek example_block (rgb example_block) \<noteq> createVector 0 0 0"
proof -
  have z: "rgbVel (Block 0 0 10 10 20 30) = createVector 0 0 0"
    by (simp add: Block_def)
  have h: "0 < maxforce example_block \<and> rgbVel example_block \<noteq> createVector 0 0 0"
    by (simp add: example_block_def Block_def)
  have "seek (Block 0 0 10 10 20 30) (rgb (Block 0 0 10 10 20 30)) = createVector 0 0 0"
    using seek_own_color [of "Block 0 0 10 10 20 30"] z by blast
  moreover have "seek example_block (rgb example_block) \<noteq> createVector 0 0 0"
    using seek_own_color [of example_block] h by blast
  ultimately show ?thesis using h by blast
qed

text \<open>
  C3 as stated fails: for the example block, whose colour velocity is (1, 0, 0),
  \<^verbatim>\<open>seek\<close> of its own colour is (-0.01, 0, 0), not the zero vector.
\<close>

theorem seek_own_color_counterexample:
  "seek example_block (rgb example_block) = createVector (- 0.01) 0 0 \<and>
   createVector (- 0.01) 0 0 \<noteq> createVector 0 0 0"
  by (simp add: seek_def Let_def example_block_def Block_def sub_v_def normalize_v_zero mult_v_def limit_v_axis)

text \<open>
  C5. Force invariant: for a block whose \<^verbatim>\<open>maxforce\<close> is not negative (the
  constructor sets 0.01), every target and every peer array, the vectors returned by
  \<^verbatim>\<open>seek\<close>, \<^verbatim>\<open>separate\<close>, \<^verbatim>\<open>align\<close> and \<^verbatim>\<open>cohesion\<close> have magnitude at
  most \<^verbatim>\<open>maxforce\<close>.
\<close>

theorem force_invariant:
  assumes "0 \<le> maxforce b"
  shows "mag (seek b target) \<le> maxforce b \<and>
         mag (separate b blocks) \<le> maxforce b \<and>
         mag (align b blocks) \<le> maxforce b \<and>
         mag (cohesion b blocks) \<le> maxforce b"
proof -
  have "mag (separate b blocks) \<le> maxforce b"
    using assms by (simp add: separate_def Let_def mag_limit_v mag_zero_vector split: prod.split)
  moreover have "mag (align b blocks) \<le> maxforce b"
    using assms by (simp add: align_def Let_def mag_limit_v mag_zero_vector split: prod.split)
  moreover have "mag (cohesion b blocks) \<le> maxforce b"
    using assms by (simp add: cohesion_def mag_seek mag_zero_vector split: prod.split)
  ultimately show ?thesis using assms by (simp add: mag_seek)
qed

text \<open>An instance of C5: the example block among a peer array with an empty slot.\<close>

theorem force_invariant_witness:
  "0 \<le> maxforce example_block \<and>
   mag (seek example_block (createVector 200 100 0)) \<le> 0.01 \<and>
   mag (separate example_block [Some example_block, None, Some (Block 0 0 10 1 2 3)]) \<le> 0.01 \<and>
   mag (align example_block [Some example_block, None, Some (Block 0 0 10 1 2 3)]) \<le> 0.01 \<and>
   mag (cohesion example_block [Some example_block, None, Some (Block 0 0 10 1 2 3)]) \<le> 0.01"
proof -
  have m: "maxforce example_block = 0.01" by (simp add: example_block_def Block_def)
  have h: "0 \<le> maxforce example_block" by (simp add: m)
  show ?thesis
    using h force_invariant [OF h, of "createVector 200 100 0" "[Some example_block, None, Some (Block 0 0 10 1 2 3)]"]
    by (simp only: m)
qed

text \<open>
  C2, as amended. \<^verbatim>\<open>separate\<close>, \<^verbatim>\<open>align\<close> and \<^verbatim>\<open>cohesion\<close> skip the null
  slots of the peer array and nothing else: each equals the result on the array with
  the null slots removed, and for an array that holds the agent \<open>a\<close> in some slot, that
  slot is counted by all three loops, adds the agent's own colour velocity to the sum of
  \<^verbatim>\<open>align\<close> and its own colour to the sum of \<^verbatim>\<open>cohesion\<close>, and adds the zero
  vector to the sum of \<^verbatim>\<open>separate\<close>. When the array without that slot still holds a
  block, \<^verbatim>\<open>separate\<close> and \<^verbatim>\<open>cohesion\<close> equal their results on the array without the
  slot. When it holds none, \<^verbatim>\<open>separate\<close> and \<^verbatim>\<open>cohesion\<close> return the negated colour
  velocity limited to \<^verbatim>\<open>maxforce\<close> and \<^verbatim>\<open>align\<close> steers towards the agent's own
  velocity, where the array without the slot gives the zero vector for all three.
\<close>

theorem neighbours_include_self:
  "separate a blocks = separate a (filter (\<lambda>slot. slot \<noteq> None) blocks) \<and>
   align a blocks = align a (filter (\<lambda>slot. slot \<noteq> None) blocks) \<and>
   cohesion a blocks = cohesion a (filter (\<lambda>slot. slot \<noteq> None) blocks) \<and>
   separate_loop a (xs @ Some a # ys) (createVector 0 0 0, 0) =
     (fst (separate_loop a (xs @ ys) (createVector 0 0 0, 0)),
      snd (separate_loop a (xs @ ys) (createVector 0 0 0, 0)) + 1) \<and>
   align_loop (xs @ Some a # ys) (createVector 0 0 0, 0) =
     (add_v (fst (align_loop (xs @ ys) (createVector 0 0 0, 0))) (rgbVel a),
      snd (align_loop (xs @ ys) (createVector 0 0 0, 0)) + 1) \<and>
   cohesion_loop (xs @ Some a # ys) (createVector 0 0 0, 0) =
     (add_v (fst (cohesion_loop (xs @ ys) (createVector 0 0 0, 0))) (rgb a),
      snd (cohesion_loop (xs @ ys) (createVector 0 0 0, 0)) + 1) \<and>
   (Some b \<in> set (xs @ ys) \<longrightarrow>
      separate a (xs @ Some a # ys) = separate a (xs @ ys) \<and>
      cohesion a (xs @ Some a # ys) = cohesion a (xs @ ys)) \<and>
   ((\<forall>slot \<in> set (xs @ ys). slot = None) \<longrightarrow>
      separate a (xs @ Some a # ys) = limit_v (sub_v (createVector 0 0 0) (rgbVel a)) (maxforce a) \<and>
      align a (xs @ Some a # ys) =
        limit_v (sub_v (mult_v (normalize_v (rgbVel a)) (maxspeed a)) (rgbVel a)) (maxforce a) \<and>
      cohesion a (xs @ Some a # ys) = limit_v (sub_v (createVector 0 0 0) (rgbVel a)) (maxforce a) \<and>
      separate a (xs @ ys) = createVector 0 0 0 \<and>
      align a (xs @ ys) = createVector 0 0 0 \<and>
      cohesion a (xs @ ys) = createVector 0 0 0)"
proof (intro conjI impI)
  show "separate a blocks = separate a (filter (\<lambda>slot. slot \<noteq> None) blocks)"
    by (simp only: separate_def separate_loop_filter)
  show "align a blocks = align a (filter (\<lambda>slot. slot \<noteq> None) blocks)"
    by (simp only: align_def align_loop_filter)
  show "cohesion a blocks = cohesion a (filter (\<lambda>slot. slot \<noteq> None) blocks)"
    by (simp only: cohesion_def cohesion_loop_filter)
  show "separate_loop a (xs @ Some a # ys) (createVector 0 0 0, 0) =
     (fst (separate_loop a (xs @ ys) (createVector 0 0 0, 0)),
      snd (separate_loop a (xs @ ys) (createVector 0 0 0, 0)) + 1)"
    by (simp add: separate_loop_gather gather_insert sub_v_self normalize_v_zero add_v_zero)
  show "align_loop (xs @ Some a # ys) (createVector 0 0 0, 0) =
     (add_v (fst (align_loop (xs @ ys) (createVector 0 0 0, 0))) (rgbVel a),
      snd (align_loop (xs @ ys) (createVector 0 0 0, 0)) + 1)"
    by (simp only: align_loop_gather gather_insert)
  show "cohesion_loop (xs @ Some a # ys) (createVector 0 0 0, 0) =
     (add_v (fst (cohesion_loop (xs @ ys) (createVector 0 0 0, 0))) (rgb a),
      snd (cohesion_loop (xs @ ys) (createVector 0 0 0, 0)) + 1)"
    by (simp only: cohesion_loop_gather gather_insert)
next
  assume "Some b \<in> set (xs @ ys)"
  then show "separate a (xs @ Some a # ys) = separate a (xs @ ys)"
    and "cohesion a (xs @ Some a # ys) = cohesion a (xs @ ys)"
    by (rule separate_with_self, rule cohesion_with_self)
next
  assume h: "\<forall>slot \<in> set (xs @ ys). slot = None"
  show "separate a (xs @ Some a # ys) = limit_v (sub_v (createVector 0 0 0) (rgbVel a)) (maxforce a)"
    by (rule alone_results [OF h])
  show "align a (xs @ Some a # ys) =
        limit_v (sub_v (mult_v (normalize_v (rgbVel a)) (maxspeed a)) (rgbVel a)) (maxforce a)"
    by (rule alone_results [OF h])
  show "cohesion a (xs @ Some a # ys) = limit_v (sub_v (createVector 0 0 0) (rgbVel a)) (maxforce a)"
    by (rule alone_results [OF h])
  show "separate a (xs @ ys) = createVector 0 0 0"
    by (rule alone_results [OF h])
  show "align a (xs @ ys) = createVector 0 0 0"
    by (rule alone_results [OF h])
  show "cohesion a (xs @ ys) = createVector 0 0 0"
    by (rule alone_results [OF h])
qed

text \<open>
  Instances of the amended C2: the example block between a null slot and a second block,
  and the example block between two null slots.
\<close>

theorem neighbours_include_self_witness:
  "Some other_block \<in> set ([None] @ [Some other_block]) \<and>
   separate example_block ([None] @ Some example_block # [Some other_block])
     = separate example_block ([None] @ [Some other_block]) \<and>
   cohesion example_block ([None] @ Some example_block # [Some other_block])
     = cohesion example_block ([None] @ [Some other_block]) \<and>
   align_loop ([None] @ Some example_block # [Some other_block]) (createVector 0 0 0, 0)
     = (createVector (1 / 2) 0 0, 2) \<and>
   cohesion_loop ([None] @ Some example_block # [Some other_block]) (createVector 0 0 0, 0)
     = (createVector 50 40 60, 2) \<and>
   set ([None] @ [None :: block option]) = {None} \<and>
   separate example_block ([None] @ Some example_block # [None]) = createVector (- (1 / 100)) 0 0 \<and>
   align example_block ([None] @ Some example_block # [None]) = createVector (1 / 100) 0 0 \<and>
   cohesion example_block ([None] @ Some example_block # [None]) = createVector (- (1 / 100)) 0 0 \<and>
   separate example_block ([None] @ [None]) = createVector 0 0 0 \<and>
   align example_block ([None] @ [None]) = createVector 0 0 0 \<and>
   cohesion example_block ([None] @ [None]) = createVector 0 0 0"
proof -
  have e: "rgb example_block = createVector 10 20 30" "rgbVel example_block = createVector 1 0 0"
      "maxspeed example_block = 3 / 2" "maxforce example_block = 1 / 100"
    by (simp_all add: example_block_def Block_def)
  have o: "rgbVel other_block = createVector (- 1 / 2) 0 0" "rgb other_block = createVector 40 20 30"
    by (simp_all add: other_block_def Block_def)
  have h1: "Some other_block \<in> set ([None] @ [Some other_block])" by simp
  have h2: "\<forall>slot \<in> set ([None] @ [None :: block option]). slot = None" by simp
  note t1 = neighbours_include_self [of example_block "[]" "[None]" "[Some other_block]" other_block]
  note t2 = neighbours_include_self [of example_block "[]" "[None]" "[None]" other_block]
  have "separate example_block ([None] @ Some example_block # [Some other_block])
          = separate example_block ([None] @ [Some other_block])"
       "cohesion example_block ([None] @ Some example_block # [Some other_block])
          = cohesion example_block ([None] @ [Some other_block])"
    using t1 h1 by blast+
  moreover have "align_loop ([None] @ Some example_block # [Some other_block]) (createVector 0 0 0, 0)
          = (createVector (1 / 2) 0 0, 2)"
       "cohesion_loop ([None] @ Some example_block # [Some other_block]) (createVector 0 0 0, 0)
          = (createVector 50 40 60, 2)"
    using t1 by (simp_all add: e o add_v_def)
  moreover have "separate example_block ([None] @ Some example_block # [None]) = createVector (- (1 / 100)) 0 0"
      "align example_block ([None] @ Some example_block # [None]) = createVector (1 / 100) 0 0"
      "cohesion example_block ([None] @ Some example_block # [None]) = createVector (- (1 / 100)) 0 0"
      "separate example_block ([None] @ [None]) = createVector 0 0 0"
      "align example_block ([None] @ [None]) = createVector 0 0 0"
      "cohesion example_block ([None] @ [None]) = createVector 0 0 0"
    using t2 h2 by (simp_all add: e sub_v_def mult_v_def normalize_v_axis limit_v_axis)
  ultimately show ?thesis using h1 h2 by simp
qed

text \<open>
  C2 as stated fails: the loops do not leave the agent out. For the example block alone
  in its array, each of the three results differs from the result on the array with the
  block removed, and with a second block present \<^verbatim>\<open>align\<close> still differs.
\<close>

theorem neighbours_exclude_self_counterexample:
  "separate example_block [Some example_block] \<noteq> separate example_block [] \<and>
   align example_block [Some example_block] \<noteq> align example_block [] \<and>
   cohesion example_block [Some example_block] \<noteq> cohesion example_block [] \<and>
   align example_block [Some example_block, Some other_block] \<noteq> align example_block [Some other_block]"
proof -
  have e: "rgb example_block = createVector 10 20 30" "rgbVel example_block = createVector 1 0 0"
      "maxspeed example_block = 3 / 2" "maxforce example_block = 1 / 100"
    by (simp_all add: example_block_def Block_def)
  have o: "rgbVel other_block = createVector (- 1 / 2) 0 0"
    by (simp add: other_block_def)
  have "separate example_block [Some example_block] = createVector (- 1 / 100) 0 0"
    by (simp add: separate_def Let_def e add_v_def sub_v_def div_v_def mult_v_def
          normalize_v_zero limit_v_axis)
  moreover have "separate example_block [] = createVector 0 0 0"
    by (simp add: separate_def)
  moreover have "align example_block [Some example_block] = createVector (1 / 100) 0 0"
    by (simp add: align_def Let_def e add_v_def sub_v_def div_v_def mult_v_def
          normalize_v_axis limit_v_axis)
  moreover have "align example_block [] = createVector 0 0 0"
    by (simp add: align_def)
  moreover have "cohesion example_block [Some example_block] = createVector (- 1 / 100) 0 0"
    by (simp add: cohesion_def seek_def Let_def e add_v_def sub_v_def div_v_def mult_v_def
          normalize_v_zero limit_v_axis)
  moreover have "cohesion example_block [] = createVector 0 0 0"
    by (simp add: cohesion_def)
  moreover have "align example_block [Some example_block, Some other_block] = createVector (1 / 100) 0 0"
    by (simp add: align_def Let_def e o add_v_def sub_v_def div_v_def mult_v_def
          normalize_v_axis limit_v_axis)
  moreover have "align example_block [Some other_block] = createVector (- 1 / 100) 0 0"
    by (simp add: align_def Let_def e o add_v_def sub_v_def div_v_def mult_v_def
          normalize_v_axis limit_v_axis)
  ultimately show ?thesis by simp
qed

section \<open>Claims about frames\<close>

text \<open>
  C8. A lone agent at rest stays at rest: for a block with zero colour velocity, at the
  start of a frame (empty accumulator, colour in range, as the constructor and every
  \<^verbatim>\<open>update\<close> leave it) and alone in its array, \<^verbatim>\<open>separate\<close>, \<^verbatim>\<open>align\<close> and
  \<^verbatim>\<open>cohesion\<close> return the zero vector, \<^verbatim>\<open>flock\<close> accumulates the zero force, and
  after any number of frames the block is unchanged.
\<close>

theorem lone_agent_stays:
  assumes "rgbVel b = createVector 0 0 0" "rgbAcc b = createVector 0 0 0" "color_ok (rgb b)"
  shows "separate b [Some b] = createVector 0 0 0 \<and>
         align b [Some b] = createVector 0 0 0 \<and>
         cohesion b [Some b] = createVector 0 0 0 \<and>
         rgbAcc (flock g [Some b] b) = createVector 0 0 0 \<and>
         ((\<lambda>a. update (flock g [Some a] a)) ^^ n) b = b"
proof -
  have "update (flock g [Some b] b) = b"
    using assms by (simp add: lone_flock still_update)
  then have "((\<lambda>a. update (flock g [Some a] a)) ^^ n) b = b"
    by (induction n) simp_all
  then show ?thesis using assms by (simp add: lone_forces lone_flock)
qed

text \<open>An instance of C8: seven frames of a freshly constructed block.\<close>

theorem lone_agent_stays_witness:
  "rgbVel (Block 0 0 10 10 20 30) = createVector 0 0 0 \<and>
   rgbAcc (Block 0 0 10 10 20 30) = createVector 0 0 0 \<and>
   color_ok (rgb (Block 0 0 10 10 20 30)) \<and>
   ((\<lambda>a. update (flock \<lparr>sepSlider = 1.2, aliSlider = 1, cohSlider = 2\<rparr> [Some a] a)) ^^ 7) (Block 0 0 10 10 20 30)
     = Block 0 0 10 10 20 30"
proof -
  have h: "rgbVel (Block 0 0 10 10 20 30) = createVector 0 0 0"
      "rgbAcc (Block 0 0 10 10 20 30) = createVector 0 0 0"
      "color_ok (rgb (Block 0 0 10 10 20 30))"
    by (simp_all add: Block_def color_ok_def channel_ok_def)
  show ?thesis using h lone_agent_stays [OF h] by blast
qed

text \<open>
  C6. Order independence of one \<^verbatim>\<open>step\<close>: whatever the order in which the two passes
  visit the slots of the array, the array after the step is the same, namely every
  agent updated after a \<^verbatim>\<open>flock\<close> over the array as it was at the start of the frame;
  and stepping the array put in another order gives the stepped array in that order.
\<close>

theorem step_order_independent:
  assumes "distinct order" "set order = {0..<length blocks}"
  shows "step_in_order g order blocks = step g blocks \<and>
         step g blocks = map (map_option (\<lambda>b. update (flock g blocks b))) blocks \<and>
         step g (map ((!) blocks) order) = map ((!) (step g blocks)) order"
proof -
  let ?cs = "map ((!) blocks) order"
  have "flock g ?cs = flock g blocks"
    by (rule ext) (rule flock_permuted [OF mset_reordered [OF assms]])
  then have "step g ?cs = map (\<lambda>i. map_option (\<lambda>b. update (flock g blocks b)) (blocks ! i)) order"
    by (simp add: step_closed_form comp_def)
  moreover have "map ((!) (step g blocks)) order
                   = map (\<lambda>i. map_option (\<lambda>b. update (flock g blocks b)) (blocks ! i)) order"
    using assms(2) by (simp add: step_closed_form)
  ultimately show ?thesis
    by (simp add: step_in_order_closed_form [OF assms] step_closed_form)
qed

text \<open>An instance of C6: three slots visited and arranged in the order 2, 0, 1.\<close>

theorem step_order_independent_witness:
  "distinct [2, 0, 1 :: nat] \<and>
   set [2, 0, 1 :: nat] = {0..<length [Some example_block, None, Some other_block]} \<and>
   step_in_order \<lparr>sepSlider = 1.2, aliSlider = 1, cohSlider = 2\<rparr> [2, 0, 1]
       [Some example_block, None, Some other_block]
     = step \<lparr>sepSlider = 1.2, aliSlider = 1, cohSlider = 2\<rparr> [Some example_block, None, Some other_block] \<and>
   step \<lparr>sepSlider = 1.2, aliSlider = 1, cohSlider = 2\<rparr>
       (map ((!) [Some example_block, None, Some other_block]) [2, 0, 1])
     = map ((!) (step \<lparr>sepSlider = 1.2, aliSlider = 1, cohSlider = 2\<rparr>
                   [Some example_block, None, Some other_block])) [2, 0, 1]"
proof -
  have h: "distinct [2, 0, 1 :: nat]"
      "set [2, 0, 1 :: nat] = {0..<length [Some example_block, None, Some other_block]}"
    by (auto simp add: atLeastLessThan_def lessThan_def)
  show ?thesis using h step_order_independent [OF h] by blast
qed

end
